theory Spec2Isabelle
  imports Main
begin

section \<open>Raster images\<close>

text \<open>
  The script \<^verbatim>\<open>generate_icons.py\<close> draws on images of the Pillow library. An image is
  a mode string, a width, a height and a raster buffer; the buffer is kept as a list of
  rows, row \<open>y\<close> holding the pixels \<open>(0, y)\<close>, \<open>(1, y)\<close>, ... from left to right. A pixel
  of an \<^verbatim>\<open>'RGBA'\<close> image is the tuple of its four channels, and a coordinate is a
  Python integer.
\<close>

type_synonym rgba = "int \<times> int \<times> int \<times> int"

type_synonym point = "int \<times> int"

type_synonym box = "int \<times> int \<times> int \<times> int"

datatype error = ValueError | OverflowError | MemoryError

record image =
  mode :: string
  width :: int
  height :: int
  pixels :: "rgba list list"

text \<open>The buffer of an image has \<open>height\<close> rows of \<open>width\<close> pixels each.\<close>

definition well_formed :: "image \<Rightarrow> bool" where
  "well_formed img \<longleftrightarrow>
     length (pixels img) = nat (height img) \<and>
     (\<forall>row \<in> set (pixels img). length row = nat (width img))"

text \<open>
  Modelled from the spec: the library's \<^verbatim>\<open>Image.new(mode, (w, h), color)\<close>, which is
  not in the repository. Section 4.1, step 1: "Allocate a size x size canvas, all pixels
  transparent": a fresh image with every pixel set to \<open>color\<close>. A negative side is the
  "invalid size" failure of section 7, a \<^verbatim>\<open>ValueError\<close> of the library.
\<close>

definition Image_new :: "string \<Rightarrow> int \<times> int \<Rightarrow> rgba \<Rightarrow> error + image" where
  "Image_new m sz color =
     (case sz of (w, h) \<Rightarrow>
        if w < 0 \<or> h < 0 then Inl ValueError
        else Inr \<lparr>mode = m, width = w, height = h,
                  pixels = replicate (nat h) (replicate (nat w) color)\<rparr>)"

text \<open>
  Reading one pixel of the buffer: \<open>None\<close> outside the buffer (where the library's
  \<^verbatim>\<open>getpixel\<close> raises).
\<close>

definition pixel_at :: "image \<Rightarrow> point \<Rightarrow> rgba option" where
  "pixel_at img p =
     (case p of (x, y) \<Rightarrow>
        if 0 \<le> y \<and> nat y < length (pixels img) \<and>
           0 \<le> x \<and> nat x < length (pixels img ! nat y)
        then Some (pixels img ! nat y ! nat x) else None)"

text \<open>All the pixel values that occur in the buffer.\<close>

definition colours :: "image \<Rightarrow> rgba set" where
  "colours img = (\<Union>row \<in> set (pixels img). set row)"

section \<open>The drawing primitives\<close>

text \<open>
  Modelled from the spec: the fill of a shape by the library's \<^verbatim>\<open>ImageDraw.Draw(img)\<close>,
  which is not in the repository. Section 4.1, steps 4 and 5: the polygon is filled
  "with opaque white" and the ellipse is "filled opaque green, painted over the diamond
  (badge takes priority where it overlaps)": drawing is in place on \<open>img\<close>, a filled
  shape overwrites each pixel it covers with the fill value (no blending), and what falls
  outside the image is clipped away. \<open>paint\<close> is that update for a shape given by the
  set of pixels it covers: it walks the rows and the pixels of the buffer, so nothing
  outside the buffer is touched.
\<close>

definition paint :: "(point \<Rightarrow> bool) \<Rightarrow> rgba \<Rightarrow> image \<Rightarrow> image" where
  "paint covers ink img =
     img\<lparr>pixels :=
       map (\<lambda>(j, row). map (\<lambda>(i, c). if covers (int i, int j) then ink else c)
                              (enumerate 0 row))
           (enumerate 0 (pixels img))\<rparr>"

text \<open>
  Which pixels a polygon and an ellipse cover is decided inside the library (its
  scan-line rasteriser), which is not part of the script. The script's functions
  therefore take the rasteriser as a parameter: \<open>polygon_covers lib xy p\<close> says whether
  the filled polygon with the vertex list \<open>xy\<close> covers the pixel \<open>p\<close>, and
  \<open>ellipse_covers lib bb p\<close> whether the filled ellipse with the bounding box
  \<open>bb = (x0, y0, x1, y1)\<close> covers \<open>p\<close>.
\<close>

record rasteriser =
  polygon_covers :: "point list \<Rightarrow> point \<Rightarrow> bool"
  ellipse_covers :: "box \<Rightarrow> point \<Rightarrow> bool"

text \<open>
  The pixels of a bounding box \<open>(x0, y0, x1, y1)\<close>: the library takes both corners as
  pixels of the box.
\<close>

definition in_box :: "box \<Rightarrow> point \<Rightarrow> bool" where
  "in_box bb p =
     (case (bb, p) of ((x0, y0, x1, y1), (x, y)) \<Rightarrow>
        x0 \<le> x \<and> x \<le> x1 \<and> y0 \<le> y \<and> y \<le> y1)"

text \<open>\<^verbatim>\<open>draw.polygon(xy, fill=ink)\<close>.\<close>

definition polygon :: "rasteriser \<Rightarrow> point list \<Rightarrow> rgba \<Rightarrow> image \<Rightarrow> image" where
  "polygon lib xy ink img = paint (polygon_covers lib xy) ink img"

text \<open>
  \<^verbatim>\<open>draw.ellipse([x0, y0, x1, y1], fill=ink)\<close>. The library refuses a box with
  \<open>x1 < x0\<close> or \<open>y1 < y0\<close> (a \<^verbatim>\<open>ValueError\<close>); the script never hands it one, as
  \<open>ellipse_dot_pos\<close> below shows.
\<close>

definition ellipse :: "rasteriser \<Rightarrow> box \<Rightarrow> rgba \<Rightarrow> image \<Rightarrow> error + image" where
  "ellipse lib bb ink img =
     (case bb of (x0, y0, x1, y1) \<Rightarrow>
        if x1 < x0 \<or> y1 < y0 then Inl ValueError
        else Inr (paint (ellipse_covers lib bb) ink img))"

section \<open>The script\<close>

text \<open>
  The local variable \<^verbatim>\<open>points\<close> of \<^verbatim>\<open>create_diamond\<close> (lines 11 to 17);
  \<^verbatim>\<open>//\<close> is floor division, which is \<open>div\<close> on \<open>int\<close>.
\<close>

definition diamond_points :: "int \<Rightarrow> point list" where
  "diamond_points sz =
     (let margin = sz div 4 in
      [(sz div 2, margin),
       (sz - margin, sz div 2),
       (sz div 2, sz - margin),
       (margin, sz div 2)])"

text \<open>The local variable \<^verbatim>\<open>dot_pos\<close> (lines 22 to 29), a list of four coordinates.\<close>

definition dot_pos :: "int \<Rightarrow> box" where
  "dot_pos sz =
     (let dot_margin = max 2 (sz div 10);
          dot_size = max 3 (sz div 6) in
      (sz - dot_margin - dot_size,
       sz - dot_margin - dot_size,
       sz - dot_margin,
       sz - dot_margin))"

text \<open>\<^verbatim>\<open>create_diamond(size, has_dot=False)\<close>, lines 3 to 32; \<open>sz\<close> is its \<^verbatim>\<open>size\<close>.\<close>

definition create_diamond :: "rasteriser \<Rightarrow> int \<Rightarrow> bool \<Rightarrow> error + image" where
  "create_diamond lib sz has_dot =
     (case Image_new ''RGBA'' (sz, sz) (0, 0, 0, 0) of
        Inl e \<Rightarrow> Inl e
      | Inr img \<Rightarrow>
          let img1 = polygon lib (diamond_points sz) (255, 255, 255, 255) img in
          if has_dot then ellipse lib (dot_pos sz) (0, 255, 0, 255) img1
          else Inr img1)"

text \<open>
  The module's top level (lines 35 to 40) saves four images and prints one line. The
  outside world is the sequence of files written, each with its name and the image
  handed to \<^verbatim>\<open>save\<close>, and the lines printed; encoding and writing a file are
  taken to succeed. An exception of \<^verbatim>\<open>create_diamond\<close> ends the script with the
  world as the statements before it left it.
\<close>

record world =
  written :: "(string \<times> image) list"
  printed :: "string list"

definition save :: "image \<Rightarrow> string \<Rightarrow> world \<Rightarrow> world" where
  "save img name w = w\<lparr>written := written w @ [(name, img)]\<rparr>"

definition print_line :: "string \<Rightarrow> world \<Rightarrow> world" where
  "print_line s w = w\<lparr>printed := printed w @ [s]\<rparr>"

definition generate_icons :: "rasteriser \<Rightarrow> world \<Rightarrow> error \<times> world + world" where
  "generate_icons lib w0 =
     (case create_diamond lib 22 False of Inl e \<Rightarrow> Inl (e, w0) | Inr i1 \<Rightarrow>
        let w1 = save i1 ''tray_iconTemplate.png'' w0 in
      case create_diamond lib 44 False of Inl e \<Rightarrow> Inl (e, w1) | Inr i2 \<Rightarrow>
        let w2 = save i2 ''tray_iconTemplate@2x.png'' w1 in
      case create_diamond lib 22 True of Inl e \<Rightarrow> Inl (e, w2) | Inr i3 \<Rightarrow>
        let w3 = save i3 ''tray_icon_activeTemplate.png'' w2 in
      case create_diamond lib 44 True of Inl e \<Rightarrow> Inl (e, w3) | Inr i4 \<Rightarrow>
        let w4 = save i4 ''tray_icon_activeTemplate@2x.png'' w3 in
      Inr (print_line ''Icons generated successfully.'' w4))"

section \<open>The limits of the allocation\<close>

text \<open>
  The specification describes the allocation of the canvas without limits, and so does
  \<open>Image_new\<close>. The library's \<^verbatim>\<open>Image.new\<close> has limits, which decide whether
  \<^verbatim>\<open>create_diamond\<close> raises for a large \<^verbatim>\<open>size\<close>: it checks in Python that no
  side is negative (\<^verbatim>\<open>ValueError\<close>), hands the sides to its C code as \<^verbatim>\<open>int\<close>
  (\<^verbatim>\<open>OverflowError\<close> from \<open>2\<^sup>3\<^sup>1 = 2147483648\<close> on), refuses a width above
  \<^verbatim>\<open>INT_MAX / 4 - 1\<close>\<open> = 536870910\<close> (\<^verbatim>\<open>MemoryError\<close>), and raises
  \<^verbatim>\<open>MemoryError\<close> when the buffer cannot be had. How much memory there is belongs to
  the machine and not to the script: \<open>memory (w, h)\<close> says whether the machine has the
  memory for a buffer of \<open>w\<close> by \<open>h\<close> pixels.
\<close>

definition Image_new_limited ::
  "(int \<times> int \<Rightarrow> bool) \<Rightarrow> string \<Rightarrow> int \<times> int \<Rightarrow> rgba \<Rightarrow> error + image" where
  "Image_new_limited memory m sz color =
     (case sz of (w, h) \<Rightarrow>
        if w < 0 \<or> h < 0 then Inl ValueError
        else if 2147483648 \<le> w \<or> 2147483648 \<le> h then Inl OverflowError
        else if 536870910 < w then Inl MemoryError
        else if \<not> memory (w, h) then Inl MemoryError
        else Inr \<lparr>mode = m, width = w, height = h,
                  pixels = replicate (nat h) (replicate (nat w) color)\<rparr>)"

text \<open>
  \<^verbatim>\<open>create_diamond(size, has_dot=False)\<close>, lines 3 to 32, on the library with these
  limits: the same statements as \<open>create_diamond\<close>, the canvas allocated by
  \<open>Image_new_limited\<close>.
\<close>

definition create_diamond_limited ::
  "(int \<times> int \<Rightarrow> bool) \<Rightarrow> rasteriser \<Rightarrow> int \<Rightarrow> bool \<Rightarrow> error + image" where
  "create_diamond_limited memory lib sz has_dot =
     (case Image_new_limited memory ''RGBA'' (sz, sz) (0, 0, 0, 0) of
        Inl e \<Rightarrow> Inl e
      | Inr img \<Rightarrow>
          let img1 = polygon lib (diamond_points sz) (255, 255, 255, 255) img in
          if has_dot then ellipse lib (dot_pos sz) (0, 255, 0, 255) img1
          else Inr img1)"

section \<open>A reference rasteriser\<close>

text \<open>
  Modelled from the spec: the polygon fill of the drawing library, which is not in the
  repository. Section 4.1, step 4: "Polygon fill uses the standard point-in-polygon
  convention (edges included)". A pixel is covered when it lies on an edge of the
  polygon, or when the horizontal ray from it to the right crosses the edges an odd
  number of times.
\<close>

fun edges_from :: "point \<Rightarrow> point list \<Rightarrow> (point \<times> point) list" where
  "edges_from first [] = []"
| "edges_from first [a] = [(a, first)]"
| "edges_from first (a # b # rest) = (a, b) # edges_from first (b # rest)"

definition edges :: "point list \<Rightarrow> (point \<times> point) list" where
  "edges xy = (case xy of [] \<Rightarrow> [] | a # rest \<Rightarrow> edges_from a xy)"

definition on_segment :: "point \<Rightarrow> point \<times> point \<Rightarrow> bool" where
  "on_segment p e =
     (case (p, e) of ((px, py), ((ax, ay), (bx, by))) \<Rightarrow>
        (bx - ax) * (py - ay) = (by - ay) * (px - ax) \<and>
        min ax bx \<le> px \<and> px \<le> max ax bx \<and>
        min ay by \<le> py \<and> py \<le> max ay by)"

definition ray_crosses :: "point \<Rightarrow> point \<times> point \<Rightarrow> bool" where
  "ray_crosses p e =
     (case (p, e) of ((px, py), ((ax, ay), (bx, by))) \<Rightarrow>
        (py < ay) \<noteq> (py < by) \<and>
        (if ay < by then (px - ax) * (by - ay) < (bx - ax) * (py - ay)
         else (bx - ax) * (py - ay) < (px - ax) * (by - ay)))"

definition point_in_polygon :: "point list \<Rightarrow> point \<Rightarrow> bool" where
  "point_in_polygon xy p \<longleftrightarrow>
     (\<exists>e \<in> set (edges xy). on_segment p e) \<or>
     odd (length (filter (ray_crosses p) (edges xy)))"

text \<open>
  Modelled from the spec: the ellipse fill of the drawing library, which is not in the
  repository. Section 4.1, step 5: "a filled ellipse ... whose bounding box's
  bottom-right corner is at ... and top-left corner at ...". The box holds the pixels
  \<open>x0, ..., x1\<close> by \<open>y0, ..., y1\<close>, so it is \<open>x1 - x0 + 1\<close> pixels wide and
  \<open>y1 - y0 + 1\<close> high; a pixel is covered when it is in the box and its centre lies in
  the ellipse inscribed in the box (the inequality is that of the ellipse, multiplied
  out so that it stays within the integers).
\<close>

definition in_ellipse :: "box \<Rightarrow> point \<Rightarrow> bool" where
  "in_ellipse bb p =
     (case (bb, p) of ((x0, y0, x1, y1), (x, y)) \<Rightarrow>
        in_box bb p \<and>
        (2 * x - x0 - x1)\<^sup>2 * (y1 - y0 + 1)\<^sup>2 + (2 * y - y0 - y1)\<^sup>2 * (x1 - x0 + 1)\<^sup>2
          \<le> (x1 - x0 + 1)\<^sup>2 * (y1 - y0 + 1)\<^sup>2)"

definition reference_rasteriser :: rasteriser where
  "reference_rasteriser =
     \<lparr>polygon_covers = point_in_polygon, ellipse_covers = in_ellipse\<rparr>"

text \<open>A rasteriser whose ellipse stays inside its bounding box.\<close>

definition ellipse_in_box :: "rasteriser \<Rightarrow> bool" where
  "ellipse_in_box lib \<longleftrightarrow> (\<forall>bb p. ellipse_covers lib bb p \<longrightarrow> in_box bb p)"

text \<open>The three pixel values the script uses.\<close>

abbreviation transparent :: rgba where
  "transparent \<equiv> (0, 0, 0, 0)"

abbreviation white :: rgba where
  "white \<equiv> (255, 255, 255, 255)"

abbreviation green :: rgba where
  "green \<equiv> (0, 255, 0, 255)"

section \<open>Pixels of a painted image\<close>

lemma Image_new_ok:
  assumes "0 \<le> w" "0 \<le> h"
  shows "Image_new m (w, h) c =
           Inr \<lparr>mode = m, width = w, height = h,
                pixels = replicate (nat h) (replicate (nat w) c)\<rparr>"
  using assms by (simp add: Image_new_def)

lemma Image_new_negative:
  "w < 0 \<or> h < 0 \<Longrightarrow> Image_new m (w, h) c = Inl ValueError"
  by (simp add: Image_new_def)

lemma Image_new_fields:
  assumes "Image_new m (w, h) c = Inr img"
  shows "mode img = m" "width img = w" "height img = h" "well_formed img" "0 \<le> w" "0 \<le> h"
  using assms by (auto simp: Image_new_def well_formed_def split: if_splits)

lemma Image_new_pixel:
  assumes "Image_new m (w, h) c = Inr img"
  shows "pixel_at img (x, y) =
     (if 0 \<le> x \<and> x < w \<and> 0 \<le> y \<and> y < h then Some c else None)"
  using assms by (auto simp: Image_new_def pixel_at_def split: if_splits)

lemma paint_fields [simp]:
  "mode (paint cov ink img) = mode img"
  "width (paint cov ink img) = width img"
  "height (paint cov ink img) = height img"
  by (simp_all add: paint_def)

lemma paint_well_formed:
  "well_formed img \<Longrightarrow> well_formed (paint cov ink img)"
  by (auto simp: well_formed_def paint_def in_set_enumerate_eq)

lemma pixel_at_paint:
  "pixel_at (paint cov ink img) p =
     (case pixel_at img p of
        None \<Rightarrow> None
      | Some c \<Rightarrow> Some (if cov p then ink else c))"
proof (cases p)
  case (Pair x y)
  show ?thesis
  proof (cases "0 \<le> y \<and> nat y < length (pixels img)")
    case False
    then show ?thesis
      by (auto simp: Pair pixel_at_def paint_def)
  next
    case row: True
    show ?thesis
    proof (cases "0 \<le> x \<and> nat x < length (pixels img ! nat y)")
      case False
      with row show ?thesis
        by (auto simp: Pair pixel_at_def paint_def nth_enumerate_eq)
    next
      case True
      with row show ?thesis
        by (simp add: Pair pixel_at_def paint_def nth_enumerate_eq)
    qed
  qed
qed

lemma colours_pixel_at:
  "c \<in> colours img \<longleftrightarrow> (\<exists>p. pixel_at img p = Some c)"
proof
  assume "c \<in> colours img"
  then obtain row where row: "row \<in> set (pixels img)" and c: "c \<in> set row"
    by (auto simp: colours_def)
  from row obtain j where j: "j < length (pixels img)" "pixels img ! j = row"
    by (auto simp: in_set_conv_nth)
  from c obtain i where i: "i < length row" "row ! i = c"
    by (auto simp: in_set_conv_nth)
  have "pixel_at img (int i, int j) = Some c"
    using i j by (simp add: pixel_at_def)
  then show "\<exists>p. pixel_at img p = Some c" ..
next
  assume "\<exists>p. pixel_at img p = Some c"
  then obtain x y where "pixel_at img (x, y) = Some c"
    by auto
  then have "nat y < length (pixels img)" "nat x < length (pixels img ! nat y)"
    "pixels img ! nat y ! nat x = c"
    by (auto simp: pixel_at_def split: if_splits)
  then show "c \<in> colours img"
    unfolding colours_def by (metis UN_I nth_mem)
qed

section \<open>What \<open>create_diamond\<close> computes\<close>

lemma dot_pos_ordered:
  "dot_pos sz = (x0, y0, x1, y1) \<Longrightarrow> x0 + 3 \<le> x1 \<and> y0 + 3 \<le> y1"
  by (auto simp: dot_pos_def Let_def)

lemma ellipse_dot_pos:
  "ellipse lib (dot_pos sz) ink img = Inr (paint (ellipse_covers lib (dot_pos sz)) ink img)"
proof -
  obtain x0 y0 x1 y1 where bb: "dot_pos sz = (x0, y0, x1, y1)"
    by (cases "dot_pos sz") auto
  from dot_pos_ordered [OF bb] show ?thesis
    by (simp add: ellipse_def bb)
qed

lemma create_diamond_eq:
  assumes "Image_new ''RGBA'' (sz, sz) transparent = Inr img0"
  shows "create_diamond lib sz has_dot =
     Inr (if has_dot
          then paint (ellipse_covers lib (dot_pos sz)) green
                 (polygon lib (diamond_points sz) white img0)
          else polygon lib (diamond_points sz) white img0)"
  using assms by (simp add: create_diamond_def ellipse_dot_pos Let_def)

lemma create_diamond_negative:
  "sz < 0 \<Longrightarrow> create_diamond lib sz has_dot = Inl ValueError"
  by (simp add: create_diamond_def Image_new_def)

lemma create_diamond_returns:
  assumes "0 \<le> sz"
  shows "\<exists>img. create_diamond lib sz has_dot = Inr img"
proof -
  from assms obtain img0 where "Image_new ''RGBA'' (sz, sz) transparent = Inr img0"
    by (simp add: Image_new_ok)
  then show ?thesis
    by (simp add: create_diamond_eq)
qed

lemma create_diamond_nonneg:
  "create_diamond lib sz has_dot = Inr img \<Longrightarrow> 0 \<le> sz"
  by (rule ccontr) (simp add: create_diamond_negative)

lemma create_diamond_shape:
  assumes "create_diamond lib sz has_dot = Inr img"
  shows "mode img = ''RGBA''" "width img = sz" "height img = sz" "well_formed img"
proof -
  from assms have "0 \<le> sz"
    by (rule create_diamond_nonneg)
  then obtain img0 where new: "Image_new ''RGBA'' (sz, sz) transparent = Inr img0"
    by (simp add: Image_new_ok)
  from assms have img: "img = (if has_dot
          then paint (ellipse_covers lib (dot_pos sz)) green
                 (polygon lib (diamond_points sz) white img0)
          else polygon lib (diamond_points sz) white img0)"
    by (simp add: create_diamond_eq [OF new])
  show "mode img = ''RGBA''" "width img = sz" "height img = sz"
    using Image_new_fields(1-3) [OF new] by (simp_all add: img polygon_def)
  show "well_formed img"
    using Image_new_fields(4) [OF new] by (simp add: img polygon_def paint_well_formed)
qed

lemma create_diamond_pixel:
  assumes "create_diamond lib sz has_dot = Inr img"
  shows "pixel_at img (x, y) =
     (if 0 \<le> x \<and> x < sz \<and> 0 \<le> y \<and> y < sz
      then Some (if has_dot \<and> ellipse_covers lib (dot_pos sz) (x, y) then green
                 else if polygon_covers lib (diamond_points sz) (x, y) then white
                 else transparent)
      else None)"
proof -
  from assms have "0 \<le> sz"
    by (rule create_diamond_nonneg)
  then obtain img0 where new: "Image_new ''RGBA'' (sz, sz) transparent = Inr img0"
    by (simp add: Image_new_ok)
  from assms have img: "img = (if has_dot
          then paint (ellipse_covers lib (dot_pos sz)) green
                 (polygon lib (diamond_points sz) white img0)
          else polygon lib (diamond_points sz) white img0)"
    by (simp add: create_diamond_eq [OF new])
  show ?thesis
    by (simp add: img polygon_def pixel_at_paint Image_new_pixel [OF new])
qed

lemma create_diamond_colour_cases:
  assumes "create_diamond lib sz has_dot = Inr img" "c \<in> colours img"
  shows "c = transparent \<or> c = white \<or> (has_dot \<and> c = green)"
proof -
  from assms(2) obtain x y where "pixel_at img (x, y) = Some c"
    by (auto simp: colours_pixel_at)
  then show ?thesis
    unfolding create_diamond_pixel [OF assms(1)] by (auto split: if_splits)
qed

section \<open>Facts about the reference rasteriser\<close>

lemma reference_rasteriser_simps [simp]:
  "polygon_covers reference_rasteriser = point_in_polygon"
  "ellipse_covers reference_rasteriser = in_ellipse"
  by (simp_all add: reference_rasteriser_def)

lemma ellipse_in_box_reference: "ellipse_in_box reference_rasteriser"
  by (simp add: ellipse_in_box_def in_ellipse_def split: prod.splits)

lemma edges_quad:
  "edges [a, b, c, d] = [(a, b), (b, c), (c, d), (d, a)]"
  by (simp add: edges_def)

text \<open>
  The diamond with the vertices top \<open>(h, m)\<close>, right \<open>(s - m, h)\<close>, bottom \<open>(h, s - m)\<close>
  and left \<open>(m, h)\<close>: of the four edges, the ray from the centre \<open>(h, h)\<close> crosses the one
  from right to bottom only.
\<close>

lemma centre_in_diamond:
  fixes h m s :: int
  assumes "m \<le> h" "h < s - m"
  shows "point_in_polygon [(h, m), (s - m, h), (h, s - m), (m, h)] (h, h)"
proof -
  have c1: "\<not> ray_crosses (h, h) ((h, m), (s - m, h))"
    using assms by (simp add: ray_crosses_def)
  have c2: "ray_crosses (h, h) ((s - m, h), (h, s - m))"
    using assms by (simp add: ray_crosses_def mult_neg_pos)
  have c3: "\<not> ray_crosses (h, h) ((h, s - m), (m, h))"
    using assms by (simp add: ray_crosses_def mult_nonpos_nonpos not_less)
  have c4: "\<not> ray_crosses (h, h) ((m, h), (h, m))"
    using assms by (simp add: ray_crosses_def)
  show ?thesis
    unfolding point_in_polygon_def edges_quad using c1 c2 c3 c4 by simp
qed

text \<open>
  The corners of the canvas lie above, below or beside every edge; the bottom-right
  corner \<open>(s - 1, s - 1)\<close> can reach the box around the edge from right to bottom, and is
  then off the line through it.
\<close>

lemma corners_not_in_diamond:
  fixes h m s :: int
  assumes "1 \<le> m" "m \<le> h" "h < s - m" "h + 2 \<le> s"
  shows "\<not> point_in_polygon [(h, m), (s - m, h), (h, s - m), (m, h)] (0, 0)"
    and "\<not> point_in_polygon [(h, m), (s - m, h), (h, s - m), (m, h)] (s - 1, 0)"
    and "\<not> point_in_polygon [(h, m), (s - m, h), (h, s - m), (m, h)] (0, s - 1)"
    and "\<not> point_in_polygon [(h, m), (s - m, h), (h, s - m), (m, h)] (s - 1, s - 1)"
proof -
  show "\<not> point_in_polygon [(h, m), (s - m, h), (h, s - m), (m, h)] (0, 0)"
    using assms by (simp add: point_in_polygon_def edges_quad ray_crosses_def on_segment_def)
  show "\<not> point_in_polygon [(h, m), (s - m, h), (h, s - m), (m, h)] (s - 1, 0)"
    using assms by (simp add: point_in_polygon_def edges_quad ray_crosses_def on_segment_def)
  show "\<not> point_in_polygon [(h, m), (s - m, h), (h, s - m), (m, h)] (0, s - 1)"
    using assms by (simp add: point_in_polygon_def edges_quad ray_crosses_def on_segment_def)
  have "(h - (s - m)) * (s - 1 - h) \<noteq> (s - m - h) * (s - 1 - (s - m))"
  proof
    assume "(h - (s - m)) * (s - 1 - h) = (s - m - h) * (s - 1 - (s - m))"
    then have "(s - m - h) * (s - 2 - h + m) = 0"
      by (simp add: algebra_simps)
    with assms show False by simp
  qed
  then show "\<not> point_in_polygon [(h, m), (s - m, h), (h, s - m), (m, h)] (s - 1, s - 1)"
    using assms by (simp add: point_in_polygon_def edges_quad ray_crosses_def on_segment_def)
qed

lemma diamond_points_bounds:
  fixes sz :: int
  assumes "4 \<le> sz"
  shows "1 \<le> sz div 4" "sz div 4 \<le> sz div 2" "sz div 2 < sz - sz div 4" "sz div 2 + 2 \<le> sz"
proof -
  define m where "m = sz div 4"
  define h where "h = sz div 2"
  define r where "r = sz mod 4"
  define q where "q = sz mod 2"
  have m: "sz = 4 * m + r" "0 \<le> r" "r < 4"
    by (simp_all add: m_def r_def)
  have h: "sz = 2 * h + q" "0 \<le> q" "q < 2"
    by (simp_all add: h_def q_def)
  from m h assms have "1 \<le> m \<and> m \<le> h \<and> h < sz - m \<and> h + 2 \<le> sz"
    by linarith
  then show "1 \<le> sz div 4" "sz div 4 \<le> sz div 2" "sz div 2 < sz - sz div 4" "sz div 2 + 2 \<le> sz"
    by (simp_all add: m_def h_def)
qed

section \<open>The badge's box\<close>

lemma dot_pos_low:
  fixes sz :: int
  assumes "5 \<le> sz"
  shows "0 \<le> sz - max 2 (sz div 10) - max 3 (sz div 6)"
proof -
  define a where "a = sz div 10"
  define b where "b = sz div 6"
  define r where "r = sz mod 10"
  define q where "q = sz mod 6"
  have "sz = 10 * a + r" "0 \<le> r"
    by (simp_all add: a_def r_def)
  then have a: "10 * a \<le> sz"
    by linarith
  have "sz = 6 * b + q" "0 \<le> q"
    by (simp_all add: b_def q_def)
  then have b: "6 * b \<le> sz"
    by linarith
  from a b assms have "0 \<le> sz - max 2 a - max 3 b"
    by (simp add: max_def)
  then show ?thesis
    by (simp add: a_def b_def)
qed

lemma Image_new_colours:
  assumes "Image_new m (w, h) c = Inr img"
  shows "colours img \<subseteq> {c}"
proof
  fix d
  assume "d \<in> colours img"
  then obtain x y where "pixel_at img (x, y) = Some d"
    by (auto simp: colours_pixel_at)
  then show "d \<in> {c}"
    unfolding Image_new_pixel [OF assms] by (simp split: if_splits)
qed

lemma diamond_points_eq:
  "diamond_points sz =
     [(sz div 2, sz div 4), (sz - sz div 4, sz div 2),
      (sz div 2, sz - sz div 4), (sz div 4, sz div 2)]"
  by (simp add: diamond_points_def Let_def)

lemma dot_pos_eq:
  "dot_pos sz =
     (sz - max 2 (sz div 10) - max 3 (sz div 6),
      sz - max 2 (sz div 10) - max 3 (sz div 6),
      sz - max 2 (sz div 10),
      sz - max 2 (sz div 10))"
  unfolding dot_pos_def Let_def by (rule refl)

section \<open>The allocation within its limits\<close>





lemma create_diamond_limited_no_memory:
  assumes "0 \<le> sz" "sz \<le> 536870910" "\<not> memory (sz, sz)"
  shows "create_diamond_limited memory lib sz has_dot = Inl MemoryError"
  using assms by (simp add: create_diamond_limited_def Image_new_limited_def)

section \<open>The claims\<close>

text \<open>
  C1. For every positive size, \<open>create_diamond\<close> returns a canvas of \<open>size\<close> by \<open>size\<close>
  pixels that starts fully transparent and onto which the polygon with the vertices
  top \<open>(size // 2, margin)\<close>, right \<open>(size - margin, size // 2)\<close>, bottom
  \<open>(size // 2, size - margin)\<close> and left \<open>(margin, size // 2)\<close>, \<open>margin = size // 4\<close>, is
  filled in opaque white: apart from the pixels the badge covers, a pixel of the result
  is white where that polygon covers it and transparent elsewhere.
\<close>

theorem render_draws_diamond:
  assumes "0 < sz"
  shows "\<exists>img0 img.
     Image_new ''RGBA'' (sz, sz) transparent = Inr img0 \<and>
     colours img0 \<subseteq> {transparent} \<and>
     create_diamond lib sz has_dot = Inr img \<and>
     width img = sz \<and> height img = sz \<and> well_formed img \<and>
     (if has_dot
      then ellipse lib (dot_pos sz) green
             (polygon lib [(sz div 2, sz div 4), (sz - sz div 4, sz div 2),
                           (sz div 2, sz - sz div 4), (sz div 4, sz div 2)] white img0)
      else Inr (polygon lib [(sz div 2, sz div 4), (sz - sz div 4, sz div 2),
                             (sz div 2, sz - sz div 4), (sz div 4, sz div 2)] white img0))
       = Inr img \<and>
     (\<forall>x y. 0 \<le> x \<and> x < sz \<and> 0 \<le> y \<and> y < sz \<longrightarrow>
        pixel_at img0 (x, y) = Some transparent \<and>
        (\<not> (has_dot \<and> ellipse_covers lib (dot_pos sz) (x, y)) \<longrightarrow>
         pixel_at img (x, y) =
           Some (if polygon_covers lib
                      [(sz div 2, sz div 4), (sz - sz div 4, sz div 2),
                       (sz div 2, sz - sz div 4), (sz div 4, sz div 2)] (x, y)
                 then white else transparent)))"
proof -
  from assms obtain img0 where new: "Image_new ''RGBA'' (sz, sz) transparent = Inr img0"
    by (simp add: Image_new_ok)
  from assms obtain img where img: "create_diamond lib sz has_dot = Inr img"
    using create_diamond_returns [of sz lib has_dot] by auto
  have drawn: "(if has_dot
      then ellipse lib (dot_pos sz) green (polygon lib (diamond_points sz) white img0)
      else Inr (polygon lib (diamond_points sz) white img0)) = Inr img"
    using img new by (simp add: create_diamond_def Let_def)
  have pix: "pixel_at img0 (x, y) = Some transparent \<and>
        (\<not> (has_dot \<and> ellipse_covers lib (dot_pos sz) (x, y)) \<longrightarrow>
         pixel_at img (x, y) =
           Some (if polygon_covers lib (diamond_points sz) (x, y) then white else transparent))"
    if "0 \<le> x \<and> x < sz \<and> 0 \<le> y \<and> y < sz" for x y
    using that by (simp add: Image_new_pixel [OF new] create_diamond_pixel [OF img])
  show ?thesis
    using new Image_new_colours [OF new] img create_diamond_shape(2-4) [OF img] drawn pix
    unfolding diamond_points_eq by blast
qed

theorem render_draws_diamond_witness:
  "\<exists>img. create_diamond reference_rasteriser 4 False = Inr img \<and>
         width img = 4 \<and> height img = 4 \<and>
         pixel_at img (2, 1) = Some white \<and> pixel_at img (3, 3) = Some transparent"
proof -
  have "(0::int) < 4"
    by simp
  from render_draws_diamond [OF this, of reference_rasteriser False]
  obtain img where img: "create_diamond reference_rasteriser 4 False = Inr img"
    and shape: "width img = 4" "height img = 4"
    and pix: "\<And>x y. 0 \<le> x \<and> x < 4 \<and> 0 \<le> y \<and> y < 4 \<Longrightarrow>
        pixel_at img (x, y) =
           Some (if point_in_polygon [(4 div 2, 4 div 4), (4 - 4 div 4, 4 div 2),
                       (4 div 2, 4 - 4 div 4), (4 div 4, 4 div 2)] (x, y)
                 then white else transparent)"
    by auto
  have top: "point_in_polygon [(2, 1), (3, 2), (2, 3), (1, 2)] (2, 1)"
    by (simp add: point_in_polygon_def edges_quad on_segment_def)
  have corner: "\<not> point_in_polygon [(2, 1), (3, 2), (2, 3), (1, 2)] (3, 3)"
    using corners_not_in_diamond(4) [of 1 2 4] by simp
  have "pixel_at img (2, 1) = Some white"
    using pix [of 2 1] top by simp
  moreover have "pixel_at img (3, 3) = Some transparent"
    using pix [of 3 3] corner by simp
  ultimately show ?thesis
    using img shape by blast
qed

text \<open>
  C2. For every positive size, with \<open>has_dot\<close> the result is the plain diamond with a
  filled ellipse of opaque green painted over it: a pixel that the ellipse covers is
  green, whatever the diamond had there, and every other pixel is that of the plain
  diamond. The bounding box handed to the ellipse has the top-left corner
  \<open>(size - dot_margin - dot_size, size - dot_margin - dot_size)\<close> and the bottom-right
  corner \<open>(size - dot_margin, size - dot_margin)\<close>, with \<open>dot_margin = max(2, size // 10)\<close>
  and \<open>dot_size = max(3, size // 6)\<close>; it is as wide as it is high.
\<close>

theorem render_draws_badge:
  assumes "0 < sz"
  shows "\<exists>plain img.
     create_diamond lib sz False = Inr plain \<and>
     create_diamond lib sz True = Inr img \<and>
     ellipse lib (sz - max 2 (sz div 10) - max 3 (sz div 6),
                  sz - max 2 (sz div 10) - max 3 (sz div 6),
                  sz - max 2 (sz div 10),
                  sz - max 2 (sz div 10)) green plain = Inr img \<and>
     (\<forall>x y. 0 \<le> x \<and> x < sz \<and> 0 \<le> y \<and> y < sz \<longrightarrow>
        pixel_at img (x, y) =
          (if ellipse_covers lib
                (sz - max 2 (sz div 10) - max 3 (sz div 6),
                 sz - max 2 (sz div 10) - max 3 (sz div 6),
                 sz - max 2 (sz div 10),
                 sz - max 2 (sz div 10)) (x, y)
           then Some green else pixel_at plain (x, y)))"
proof -
  from assms have nonneg: "0 \<le> sz"
    by simp
  obtain plain where plain: "create_diamond lib sz False = Inr plain"
    using create_diamond_returns [OF nonneg] by blast
  obtain img where img: "create_diamond lib sz True = Inr img"
    using create_diamond_returns [OF nonneg] by blast
  obtain img0 where new: "Image_new ''RGBA'' (sz, sz) transparent = Inr img0"
    using nonneg by (simp add: Image_new_ok)
  have "ellipse lib (dot_pos sz) green plain = Inr img"
    using plain img by (simp add: create_diamond_eq [OF new] ellipse_dot_pos)
  moreover have "pixel_at img (x, y) =
          (if ellipse_covers lib (dot_pos sz) (x, y)
           then Some green else pixel_at plain (x, y))"
    if "0 \<le> x \<and> x < sz \<and> 0 \<le> y \<and> y < sz" for x y
    using that by (simp add: create_diamond_pixel [OF img] create_diamond_pixel [OF plain])
  ultimately show ?thesis
    using plain img unfolding dot_pos_eq by blast
qed

theorem render_draws_badge_witness:
  "\<exists>plain img.
     create_diamond reference_rasteriser 12 False = Inr plain \<and>
     create_diamond reference_rasteriser 12 True = Inr img \<and>
     pixel_at img (8, 8) = Some green \<and>
     pixel_at img (6, 6) = pixel_at plain (6, 6)"
proof -
  have "(0::int) < 12"
    by simp
  from render_draws_badge [OF this, of reference_rasteriser]
  obtain plain img where plain: "create_diamond reference_rasteriser 12 False = Inr plain"
    and img: "create_diamond reference_rasteriser 12 True = Inr img"
    and pix: "\<And>x y. 0 \<le> x \<and> x < 12 \<and> 0 \<le> y \<and> y < 12 \<Longrightarrow>
        pixel_at img (x, y) =
          (if in_ellipse (12 - max 2 (12 div 10) - max 3 (12 div 6),
                 12 - max 2 (12 div 10) - max 3 (12 div 6),
                 12 - max 2 (12 div 10),
                 12 - max 2 (12 div 10)) (x, y)
           then Some green else pixel_at plain (x, y))"
    by auto
  have inside: "in_ellipse (7, 7, 10, 10) (8, 8)"
    by (simp add: in_ellipse_def in_box_def)
  have outside: "\<not> in_ellipse (7, 7, 10, 10) (6, 6)"
    by (simp add: in_ellipse_def in_box_def)
  have "pixel_at img (8, 8) = Some green"
    using pix [of 8 8] inside by simp
  moreover have "pixel_at img (6, 6) = pixel_at plain (6, 6)"
    using pix [of 6 6] outside by simp
  ultimately show ?thesis
    using plain img by blast
qed

text \<open>
  C3, as the specification states it: \<open>create_diamond(22)\<close> fills the polygon with the
  vertices \<open>(11, 5)\<close>, \<open>(16, 11)\<close>, \<open>(11, 16)\<close>, \<open>(5, 11)\<close>. The code computes
  \<open>size - margin = 22 - 5 = 17\<close> for the right and the bottom vertex; with the reference
  rasteriser the pixel \<open>(17, 11)\<close> is white, and the polygon of the specification does
  not reach it.
\<close>

theorem render_22_vertices_counterexample:
  "diamond_points 22 = [(11, 5), (17, 11), (11, 17), (5, 11)] \<and>
   diamond_points 22 \<noteq> [(11, 5), (16, 11), (11, 16), (5, 11)] \<and>
   (\<exists>img. create_diamond reference_rasteriser 22 False = Inr img \<and>
          pixel_at img (17, 11) = Some white) \<and>
   \<not> point_in_polygon [(11, 5), (16, 11), (11, 16), (5, 11)] (17, 11)"
proof -
  have pts: "diamond_points 22 = [(11, 5), (17, 11), (11, 17), (5, 11)]"
    by (simp add: diamond_points_def)
  obtain img where img: "create_diamond reference_rasteriser 22 False = Inr img"
    using create_diamond_returns [of 22 reference_rasteriser False] by auto
  have "point_in_polygon [(11, 5), (17, 11), (11, 17), (5, 11)] (17, 11)"
    by (simp add: point_in_polygon_def edges_quad on_segment_def)
  then have "pixel_at img (17, 11) = Some white"
    by (simp add: create_diamond_pixel [OF img] pts)
  moreover have "\<not> point_in_polygon [(11, 5), (16, 11), (11, 16), (5, 11)] (17, 11)"
    by (simp add: point_in_polygon_def edges_quad on_segment_def ray_crosses_def)
  ultimately show ?thesis
    using pts img by auto
qed

text \<open>
  C3, amended. \<open>create_diamond(22)\<close> returns a canvas of 22 by 22 pixels on which the
  polygon with the vertices \<open>(11, 5)\<close>, \<open>(17, 11)\<close>, \<open>(11, 17)\<close>, \<open>(5, 11)\<close> is filled in
  white, every other pixel being transparent; no pixel of the canvas is green.
\<close>

theorem render_22_plain:
  "\<exists>img. create_diamond lib 22 False = Inr img \<and>
         width img = 22 \<and> height img = 22 \<and> well_formed img \<and>
         diamond_points 22 = [(11, 5), (17, 11), (11, 17), (5, 11)] \<and>
         (\<forall>x y. 0 \<le> x \<and> x < 22 \<and> 0 \<le> y \<and> y < 22 \<longrightarrow>
            pixel_at img (x, y) =
              Some (if polygon_covers lib [(11, 5), (17, 11), (11, 17), (5, 11)] (x, y)
                    then white else transparent)) \<and>
         green \<notin> colours img"
proof -
  have pts: "diamond_points 22 = [(11, 5), (17, 11), (11, 17), (5, 11)]"
    by (simp add: diamond_points_def)
  obtain img where img: "create_diamond lib 22 False = Inr img"
    using create_diamond_returns [of 22 lib False] by auto
  have "pixel_at img (x, y) =
              Some (if polygon_covers lib [(11, 5), (17, 11), (11, 17), (5, 11)] (x, y)
                    then white else transparent)"
    if "0 \<le> x \<and> x < 22 \<and> 0 \<le> y \<and> y < 22" for x y
    using that by (simp add: create_diamond_pixel [OF img] pts)
  moreover have "green \<notin> colours img"
    using create_diamond_colour_cases [OF img, of green] by auto
  ultimately show ?thesis
    using img create_diamond_shape(2-4) [OF img] pts by blast
qed

theorem render_22_plain_witness:
  "\<exists>img. create_diamond reference_rasteriser 22 False = Inr img \<and>
         width img = 22 \<and> height img = 22 \<and>
         pixel_at img (11, 17) = Some white \<and> pixel_at img (17, 17) = Some transparent \<and>
         green \<notin> colours img"
proof -
  from render_22_plain [of reference_rasteriser]
  obtain img where img: "create_diamond reference_rasteriser 22 False = Inr img"
    and shape: "width img = 22" "height img = 22" and plain: "green \<notin> colours img"
    and pix: "\<And>x y. 0 \<le> x \<and> x < 22 \<and> 0 \<le> y \<and> y < 22 \<Longrightarrow>
        pixel_at img (x, y) =
           Some (if point_in_polygon [(11, 5), (17, 11), (11, 17), (5, 11)] (x, y)
                 then white else transparent)"
    by auto
  have bottom: "point_in_polygon [(11, 5), (17, 11), (11, 17), (5, 11)] (11, 17)"
    by (simp add: point_in_polygon_def edges_quad on_segment_def)
  have beyond: "\<not> point_in_polygon [(11, 5), (17, 11), (11, 17), (5, 11)] (17, 17)"
    by (simp add: point_in_polygon_def edges_quad on_segment_def ray_crosses_def)
  have "pixel_at img (11, 17) = Some white"
    using pix [of 11 17] bottom by simp
  moreover have "pixel_at img (17, 17) = Some transparent"
    using pix [of 17 17] beyond by simp
  ultimately show ?thesis
    using img shape plain by blast
qed

text \<open>
  C4, as the specification states it: for \<open>create_diamond(44, True)\<close> the bounding box
  of the badge is \<open>(30, 30)\<close> to \<open>(37, 37)\<close>. The code computes \<open>dot_margin = 4\<close> and
  \<open>dot_size = 7\<close>, so the box is \<open>(33, 33)\<close> to \<open>(40, 40)\<close>; with the reference rasteriser
  the pixel \<open>(40, 36)\<close>, outside the box of the specification, is green.
\<close>

theorem render_44_badge_box_counterexample:
  "dot_pos 44 = (33, 33, 40, 40) \<and>
   dot_pos 44 \<noteq> (30, 30, 37, 37) \<and>
   (\<exists>img. create_diamond reference_rasteriser 44 True = Inr img \<and>
          pixel_at img (40, 36) = Some green) \<and>
   \<not> in_box (30, 30, 37, 37) (40, 36)"
proof -
  have box: "dot_pos 44 = (33, 33, 40, 40)"
    by (simp add: dot_pos_def)
  obtain img where img: "create_diamond reference_rasteriser 44 True = Inr img"
    using create_diamond_returns [of 44 reference_rasteriser True] by auto
  have "in_ellipse (33, 33, 40, 40) (40, 36)"
    by (simp add: in_ellipse_def in_box_def)
  then have "pixel_at img (40, 36) = Some green"
    by (simp add: create_diamond_pixel [OF img] box)
  moreover have "\<not> in_box (30, 30, 37, 37) (40, 36)"
    by (simp add: in_box_def)
  ultimately show ?thesis
    using box img by auto
qed

text \<open>
  C4, amended. \<open>create_diamond(44, True)\<close> returns a canvas whose white diamond has the
  vertices \<open>(22, 11)\<close>, \<open>(33, 22)\<close>, \<open>(22, 33)\<close>, \<open>(11, 22)\<close> and whose green badge has the
  bounding box from \<open>(33, 33)\<close> to \<open>(40, 40)\<close>. The box lies to the bottom right of the
  diamond, beyond its edge from \<open>(33, 22)\<close> to \<open>(22, 33)\<close>: \<open>x + y\<close> is at most 55 at the
  vertices of the diamond and at least 66 in the box, and the polygon fill of the
  reference rasteriser covers no pixel of the box.
\<close>

theorem render_44_active:
  "\<exists>img. create_diamond lib 44 True = Inr img \<and>
         width img = 44 \<and> height img = 44 \<and>
         diamond_points 44 = [(22, 11), (33, 22), (22, 33), (11, 22)] \<and>
         dot_pos 44 = (33, 33, 40, 40) \<and>
         (\<forall>x y. 0 \<le> x \<and> x < 44 \<and> 0 \<le> y \<and> y < 44 \<longrightarrow>
            pixel_at img (x, y) =
              Some (if ellipse_covers lib (33, 33, 40, 40) (x, y) then green
                    else if polygon_covers lib [(22, 11), (33, 22), (22, 33), (11, 22)] (x, y)
                    then white else transparent)) \<and>
         (\<forall>p \<in> set (diamond_points 44). fst p + snd p \<le> 55) \<and>
         (\<forall>x y. in_box (dot_pos 44) (x, y) \<longrightarrow>
            66 \<le> x + y \<and> \<not> point_in_polygon (diamond_points 44) (x, y))"
proof -
  have pts: "diamond_points 44 = [(22, 11), (33, 22), (22, 33), (11, 22)]"
    by (simp add: diamond_points_def)
  have box: "dot_pos 44 = (33, 33, 40, 40)"
    by (simp add: dot_pos_def)
  obtain img where img: "create_diamond lib 44 True = Inr img"
    using create_diamond_returns [of 44 lib True] by auto
  have pix: "pixel_at img (x, y) =
              Some (if ellipse_covers lib (33, 33, 40, 40) (x, y) then green
                    else if polygon_covers lib [(22, 11), (33, 22), (22, 33), (11, 22)] (x, y)
                    then white else transparent)"
    if "0 \<le> x \<and> x < 44 \<and> 0 \<le> y \<and> y < 44" for x y
    using that by (simp add: create_diamond_pixel [OF img] pts box)
  have vertices: "\<forall>p \<in> set (diamond_points 44). fst p + snd p \<le> 55"
    by (simp add: pts)
  have apart: "66 \<le> x + y \<and> \<not> point_in_polygon (diamond_points 44) (x, y)"
    if "in_box (dot_pos 44) (x, y)" for x y
  proof -
    from that have "33 \<le> x" "33 \<le> y"
      by (simp_all add: box in_box_def)
    then show ?thesis
      by (simp add: pts point_in_polygon_def edges_quad on_segment_def ray_crosses_def)
  qed
  show ?thesis
    using img create_diamond_shape(2,3) [OF img] pts box pix vertices apart by blast
qed

theorem render_44_active_witness:
  "\<exists>img. create_diamond reference_rasteriser 44 True = Inr img \<and>
         width img = 44 \<and> height img = 44 \<and>
         pixel_at img (36, 36) = Some green \<and>
         pixel_at img (22, 22) = Some white \<and>
         pixel_at img (33, 33) = Some transparent \<and>
         in_box (dot_pos 44) (33, 33) \<and>
         \<not> point_in_polygon (diamond_points 44) (33, 33)"
proof -
  from render_44_active [of reference_rasteriser]
  obtain img where img: "create_diamond reference_rasteriser 44 True = Inr img"
    and shape: "width img = 44" "height img = 44"
    and box: "dot_pos 44 = (33, 33, 40, 40)"
    and pix: "\<And>x y. 0 \<le> x \<and> x < 44 \<and> 0 \<le> y \<and> y < 44 \<Longrightarrow>
        pixel_at img (x, y) =
              Some (if in_ellipse (33, 33, 40, 40) (x, y) then green
                    else if point_in_polygon [(22, 11), (33, 22), (22, 33), (11, 22)] (x, y)
                    then white else transparent)"
    and apart: "\<And>x y. in_box (dot_pos 44) (x, y) \<Longrightarrow>
            \<not> point_in_polygon (diamond_points 44) (x, y)"
    by auto
  have corner: "in_box (dot_pos 44) (33, 33)"
    by (simp add: box in_box_def)
  have "pixel_at img (36, 36) = Some green"
    using pix [of 36 36] by (simp add: in_ellipse_def in_box_def)
  moreover have "pixel_at img (22, 22) = Some white"
    using pix [of 22 22] centre_in_diamond [of 11 22 44]
    by (simp add: in_ellipse_def in_box_def)
  moreover have "pixel_at img (33, 33) = Some transparent"
    using pix [of 33 33] apart [OF corner]
    by (simp add: in_ellipse_def in_box_def diamond_points_def)
  ultimately show ?thesis
    using img shape corner apart [OF corner] by blast
qed

text \<open>
  C5. For every size of at least 4, on the canvas of \<open>create_diamond(size)\<close> the centre
  pixel \<open>(size // 2, size // 2)\<close> is opaque white and the four corner pixels \<open>(0, 0)\<close>,
  \<open>(size - 1, 0)\<close>, \<open>(0, size - 1)\<close> and \<open>(size - 1, size - 1)\<close> are fully transparent,
  the polygon fill being the point-in-polygon test with the edges included.
\<close>

theorem centre_white_corners_transparent:
  assumes "4 \<le> sz" "polygon_covers lib = point_in_polygon"
  shows "\<exists>img. create_diamond lib sz False = Inr img \<and>
           pixel_at img (sz div 2, sz div 2) = Some white \<and>
           pixel_at img (0, 0) = Some transparent \<and>
           pixel_at img (sz - 1, 0) = Some transparent \<and>
           pixel_at img (0, sz - 1) = Some transparent \<and>
           pixel_at img (sz - 1, sz - 1) = Some transparent"
proof -
  from assms(1) have nonneg: "0 \<le> sz"
    by simp
  obtain img where img: "create_diamond lib sz False = Inr img"
    using create_diamond_returns [OF nonneg] by blast
  note b = diamond_points_bounds [OF assms(1)]
  have half: "0 \<le> sz div 2" "sz div 2 < sz"
    using b by linarith+
  have last: "0 \<le> sz - 1" "sz - 1 < sz" "0 < sz"
    using assms(1) by simp_all
  have centre: "point_in_polygon (diamond_points sz) (sz div 2, sz div 2)"
    unfolding diamond_points_eq by (rule centre_in_diamond [OF b(2) b(3)])
  have corners:
    "\<not> point_in_polygon (diamond_points sz) (0, 0)"
    "\<not> point_in_polygon (diamond_points sz) (sz - 1, 0)"
    "\<not> point_in_polygon (diamond_points sz) (0, sz - 1)"
    "\<not> point_in_polygon (diamond_points sz) (sz - 1, sz - 1)"
    unfolding diamond_points_eq by (rule corners_not_in_diamond [OF b])+
  have "pixel_at img (sz div 2, sz div 2) = Some white"
    unfolding create_diamond_pixel [OF img] assms(2) using half centre by simp
  moreover have "pixel_at img (0, 0) = Some transparent"
    unfolding create_diamond_pixel [OF img] assms(2) using last corners(1) by simp
  moreover have "pixel_at img (sz - 1, 0) = Some transparent"
    unfolding create_diamond_pixel [OF img] assms(2) using last corners(2) by simp
  moreover have "pixel_at img (0, sz - 1) = Some transparent"
    unfolding create_diamond_pixel [OF img] assms(2) using last corners(3) by simp
  moreover have "pixel_at img (sz - 1, sz - 1) = Some transparent"
    unfolding create_diamond_pixel [OF img] assms(2) using last corners(4) by simp
  ultimately show ?thesis
    using img by blast
qed

theorem centre_white_corners_transparent_witness:
  "polygon_covers reference_rasteriser = point_in_polygon \<and>
   (\<exists>img. create_diamond reference_rasteriser 4 False = Inr img \<and>
          pixel_at img (2, 2) = Some white \<and>
          pixel_at img (0, 0) = Some transparent \<and>
          pixel_at img (3, 0) = Some transparent \<and>
          pixel_at img (0, 3) = Some transparent \<and>
          pixel_at img (3, 3) = Some transparent)"
proof -
  have size: "(4::int) \<le> 4"
    by simp
  have fill: "polygon_covers reference_rasteriser = point_in_polygon"
    by simp
  from centre_white_corners_transparent [OF size fill] fill show ?thesis
    by simp
qed

text \<open>
  C6. For every positive size, the canvases of \<open>create_diamond(size, True)\<close> and
  \<open>create_diamond(size)\<close> agree on every pixel outside the bounding box of the badge,
  for a library whose filled ellipse stays inside its bounding box.
\<close>

theorem badge_changes_only_its_box:
  assumes "0 < sz" "ellipse_in_box lib"
  shows "\<exists>plain active.
           create_diamond lib sz False = Inr plain \<and>
           create_diamond lib sz True = Inr active \<and>
           (\<forall>p. \<not> in_box (dot_pos sz) p \<longrightarrow> pixel_at active p = pixel_at plain p)"
proof -
  from assms(1) have nonneg: "0 \<le> sz"
    by simp
  obtain plain where plain: "create_diamond lib sz False = Inr plain"
    using create_diamond_returns [OF nonneg] by blast
  obtain active where active: "create_diamond lib sz True = Inr active"
    using create_diamond_returns [OF nonneg] by blast
  have "pixel_at active p = pixel_at plain p" if out: "\<not> in_box (dot_pos sz) p" for p
  proof (cases p)
    case (Pair x y)
    from out assms(2) have "\<not> ellipse_covers lib (dot_pos sz) (x, y)"
      unfolding ellipse_in_box_def Pair by blast
    then show ?thesis
      unfolding Pair create_diamond_pixel [OF plain] create_diamond_pixel [OF active]
      by simp
  qed
  with plain active show ?thesis
    by blast
qed

theorem badge_changes_only_its_box_witness:
  "ellipse_in_box reference_rasteriser \<and> dot_pos 22 = (17, 17, 20, 20) \<and>
   \<not> in_box (dot_pos 22) (16, 18) \<and>
   (\<exists>plain active.
      create_diamond reference_rasteriser 22 False = Inr plain \<and>
      create_diamond reference_rasteriser 22 True = Inr active \<and>
      pixel_at active (16, 18) = pixel_at plain (16, 18))"
proof -
  have size: "(0::int) < 22"
    by simp
  have box: "dot_pos 22 = (17, 17, 20, 20)"
    by (simp add: dot_pos_def)
  have out: "\<not> in_box (dot_pos 22) (16, 18)"
    by (simp add: box in_box_def)
  from badge_changes_only_its_box [OF size ellipse_in_box_reference]
  obtain plain active where "create_diamond reference_rasteriser 22 False = Inr plain"
    "create_diamond reference_rasteriser 22 True = Inr active"
    "\<And>p. \<not> in_box (dot_pos 22) p \<Longrightarrow> pixel_at active p = pixel_at plain p"
    by blast
  with out box ellipse_in_box_reference show ?thesis
    by blast
qed

text \<open>
  C7. For every size of at least 10, the bounding box of the badge, from
  \<open>(size - dot_margin - dot_size, size - dot_margin - dot_size)\<close> to
  \<open>(size - dot_margin, size - dot_margin)\<close>, lies within \<open>[0, size) \<times> [0, size)\<close>: every
  pixel of the box, corners included, is a pixel of the canvas.
\<close>

theorem badge_box_inside_canvas:
  assumes "10 \<le> sz"
  shows "dot_pos sz =
           (sz - max 2 (sz div 10) - max 3 (sz div 6),
            sz - max 2 (sz div 10) - max 3 (sz div 6),
            sz - max 2 (sz div 10),
            sz - max 2 (sz div 10)) \<and>
         (\<forall>x y. in_box (dot_pos sz) (x, y) \<longrightarrow> 0 \<le> x \<and> x < sz \<and> 0 \<le> y \<and> y < sz)"
proof -
  define lo where "lo = sz - max 2 (sz div 10) - max 3 (sz div 6)"
  define hi where "hi = sz - max 2 (sz div 10)"
  have box: "dot_pos sz = (lo, lo, hi, hi)"
    by (simp add: dot_pos_def Let_def lo_def hi_def)
  from assms have "5 \<le> sz"
    by simp
  then have low: "0 \<le> lo"
    unfolding lo_def by (rule dot_pos_low)
  have high: "hi < sz"
    unfolding hi_def by simp
  have "in_box (lo, lo, hi, hi) (x, y) \<longrightarrow> 0 \<le> x \<and> x < sz \<and> 0 \<le> y \<and> y < sz" for x y
    using low high by (auto simp: in_box_def)
  then have "\<forall>x y. in_box (dot_pos sz) (x, y) \<longrightarrow> 0 \<le> x \<and> x < sz \<and> 0 \<le> y \<and> y < sz"
    unfolding box by blast
  moreover have "dot_pos sz =
           (sz - max 2 (sz div 10) - max 3 (sz div 6),
            sz - max 2 (sz div 10) - max 3 (sz div 6),
            sz - max 2 (sz div 10),
            sz - max 2 (sz div 10))"
    unfolding box lo_def hi_def by (rule refl)
  ultimately show ?thesis
    by (rule conjI [rotated])
qed

theorem badge_box_inside_canvas_witness:
  "dot_pos 10 = (5, 5, 8, 8) \<and> in_box (dot_pos 10) (8, 8) \<and> (0::int) \<le> 8 \<and> (8::int) < 10"
proof -
  have "(10::int) \<le> 10"
    by simp
  from badge_box_inside_canvas [OF this]
  have box: "dot_pos 10 = (10 - max 2 (10 div 10) - max 3 (10 div 6),
            10 - max 2 (10 div 10) - max 3 (10 div 6),
            10 - max 2 (10 div 10), 10 - max 2 (10 div 10))"
    and inside: "in_box (dot_pos 10) (8, 8) \<longrightarrow> (0::int) \<le> 8 \<and> (8::int) < 10 \<and> (0::int) \<le> 8 \<and> (8::int) < 10"
    by blast+
  from box have eq: "dot_pos 10 = (5, 5, 8, 8)"
    by simp
  then have "in_box (dot_pos 10) (8, 8)"
    by (simp add: in_box_def)
  with eq inside show ?thesis
    by blast
qed

text \<open>
  C8. Run from an empty world, the script writes exactly four files, in this order:
  \<^verbatim>\<open>tray_iconTemplate.png\<close> from \<open>create_diamond(22)\<close>,
  \<^verbatim>\<open>tray_iconTemplate@2x.png\<close> from \<open>create_diamond(44)\<close>,
  \<^verbatim>\<open>tray_icon_activeTemplate.png\<close> from \<open>create_diamond(22, True)\<close> and
  \<^verbatim>\<open>tray_icon_activeTemplate@2x.png\<close> from \<open>create_diamond(44, True)\<close>, which are RGBA
  images of 22 by 22, 44 by 44, 22 by 22 and 44 by 44 pixels; then it prints one
  confirmation line.
\<close>

theorem generate_icons_outputs:
  "\<exists>a b c d.
     create_diamond lib 22 False = Inr a \<and>
     create_diamond lib 44 False = Inr b \<and>
     create_diamond lib 22 True = Inr c \<and>
     create_diamond lib 44 True = Inr d \<and>
     generate_icons lib \<lparr>written = [], printed = []\<rparr> =
       Inr \<lparr>written = [(''tray_iconTemplate.png'', a),
                        (''tray_iconTemplate@2x.png'', b),
                        (''tray_icon_activeTemplate.png'', c),
                        (''tray_icon_activeTemplate@2x.png'', d)],
            printed = [''Icons generated successfully.'']\<rparr> \<and>
     mode a = ''RGBA'' \<and> width a = 22 \<and> height a = 22 \<and> well_formed a \<and>
     mode b = ''RGBA'' \<and> width b = 44 \<and> height b = 44 \<and> well_formed b \<and>
     mode c = ''RGBA'' \<and> width c = 22 \<and> height c = 22 \<and> well_formed c \<and>
     mode d = ''RGBA'' \<and> width d = 44 \<and> height d = 44 \<and> well_formed d"
proof -
  obtain a where a: "create_diamond lib 22 False = Inr a"
    using create_diamond_returns [of 22 lib False] by auto
  obtain b where b: "create_diamond lib 44 False = Inr b"
    using create_diamond_returns [of 44 lib False] by auto
  obtain c where c: "create_diamond lib 22 True = Inr c"
    using create_diamond_returns [of 22 lib True] by auto
  obtain d where d: "create_diamond lib 44 True = Inr d"
    using create_diamond_returns [of 44 lib True] by auto
  have run: "generate_icons lib \<lparr>written = [], printed = []\<rparr> =
       Inr \<lparr>written = [(''tray_iconTemplate.png'', a),
                        (''tray_iconTemplate@2x.png'', b),
                        (''tray_icon_activeTemplate.png'', c),
                        (''tray_icon_activeTemplate@2x.png'', d)],
            printed = [''Icons generated successfully.'']\<rparr>"
    by (simp add: generate_icons_def a b c d save_def print_line_def)
  show ?thesis
    using a b c d run
      create_diamond_shape [OF a] create_diamond_shape [OF b]
      create_diamond_shape [OF c] create_diamond_shape [OF d]
    by blast
qed

theorem generate_icons_outputs_witness:
  "\<exists>w. generate_icons reference_rasteriser \<lparr>written = [], printed = []\<rparr> = Inr w \<and>
        map fst (written w) =
          [''tray_iconTemplate.png'', ''tray_iconTemplate@2x.png'',
           ''tray_icon_activeTemplate.png'', ''tray_icon_activeTemplate@2x.png''] \<and>
        map (\<lambda>f. (mode (snd f), width (snd f), height (snd f))) (written w) =
          [(''RGBA'', 22, 22), (''RGBA'', 44, 44), (''RGBA'', 22, 22), (''RGBA'', 44, 44)] \<and>
        map (\<lambda>f. length (pixels (snd f))) (written w) = [22, 44, 22, 44] \<and>
        printed w = [''Icons generated successfully.'']"
proof -
  from generate_icons_outputs [of reference_rasteriser]
  obtain a b c d where run: "generate_icons reference_rasteriser \<lparr>written = [], printed = []\<rparr> =
       Inr \<lparr>written = [(''tray_iconTemplate.png'', a),
                        (''tray_iconTemplate@2x.png'', b),
                        (''tray_icon_activeTemplate.png'', c),
                        (''tray_icon_activeTemplate@2x.png'', d)],
            printed = [''Icons generated successfully.'']\<rparr>"
    and shape: "mode a = ''RGBA''" "width a = 22" "height a = 22" "well_formed a"
      "mode b = ''RGBA''" "width b = 44" "height b = 44" "well_formed b"
      "mode c = ''RGBA''" "width c = 22" "height c = 22" "well_formed c"
      "mode d = ''RGBA''" "width d = 44" "height d = 44" "well_formed d"
    by blast
  from shape have rows: "length (pixels a) = 22" "length (pixels b) = 44"
    "length (pixels c) = 22" "length (pixels d) = 44"
    by (simp_all add: well_formed_def)
  show ?thesis
    unfolding run using shape(1-3,5-7,9-11,13-15) rows by simp
qed




text \<open>
  C10. Every pixel of the canvas that \<open>create_diamond\<close> returns is fully transparent
  \<open>(0, 0, 0, 0)\<close>, opaque white \<open>(255, 255, 255, 255)\<close> or opaque green
  \<open>(0, 255, 0, 255)\<close>, and green occurs only when \<open>has_dot\<close> is true.
\<close>

theorem create_diamond_three_colours:
  assumes "create_diamond lib sz has_dot = Inr img"
  shows "colours img \<subseteq> {transparent, white, green} \<and>
         (green \<in> colours img \<longrightarrow> has_dot)"
proof
  show "colours img \<subseteq> {transparent, white, green}"
    using create_diamond_colour_cases [OF assms] by blast
  show "green \<in> colours img \<longrightarrow> has_dot"
    using create_diamond_colour_cases [OF assms, of green] by simp
qed

theorem create_diamond_three_colours_witness:
  "\<exists>img. create_diamond reference_rasteriser 4 False = Inr img \<and>
         colours img \<subseteq> {transparent, white, green} \<and> green \<notin> colours img \<and>
         pixel_at img (2, 2) = Some white \<and> pixel_at img (0, 0) = Some transparent"
proof -
  obtain img where img: "create_diamond reference_rasteriser 4 False = Inr img"
    using create_diamond_returns [of 4 reference_rasteriser False] by auto
  from create_diamond_three_colours [OF img]
  have "colours img \<subseteq> {transparent, white, green}" "green \<notin> colours img"
    by blast+
  moreover have "pixel_at img (2, 2) = Some white"
    using centre_in_diamond [of 1 2 4]
    by (simp add: create_diamond_pixel [OF img] diamond_points_def)
  moreover have "pixel_at img (0, 0) = Some transparent"
    using corners_not_in_diamond(1) [of 1 2 4]
    by (simp add: create_diamond_pixel [OF img] diamond_points_def)
  ultimately show ?thesis
    using img by blast
qed

end
